theory Spec2Isabelle
  imports Complex_Main "HOL-Library.Multiset"
begin

section \<open>Data model of \<open>src/App.tsx\<close>\<close>

text \<open>
  Strings of the program are modelled as \<open>string\<close>: the bytes of their UTF-8 encoding.
  Concatenation and the test for the empty string, the only string operations the
  program performs, are the same on either representation.

  A \<open>File\<close> is what the file input hands to the handlers: a name and a content.
  \<open>file.size\<close> is the byte length of the content.
\<close>

record File =
  file_name :: string
  file_bytes :: "nat list"

definition file_size :: "File \<Rightarrow> nat" where
  "file_size file = length (file_bytes file)"

text \<open>\<open>type PdfInfo = { name; pages; size }\<close>; the field \<open>size\<close> is \<open>size_info\<close> here.\<close>

record PdfInfo =
  name :: string
  pages :: nat
  size_info :: nat

text \<open>The literal \<open>{ name: "-", pages: 0, size: 0 }\<close>, which the source writes out at each use.\<close>

definition emptyInfo :: PdfInfo where
  "emptyInfo = \<lparr>name = ''-'', pages = 0, size_info = 0\<rparr>"

text \<open>
  The six status literals of the source (Japanese text), one constructor each, in the
  order: "please select two PDFs", "failed to read PDF A", "failed to read PDF B",
  "merging...", "done", "merge failed, please check the PDFs".
  \<open>status_text\<close> gives the literal itself.
\<close>

datatype Status = SelectTwoPdfs | LoadFailedA | LoadFailedB | Merging | Done | MergeFailed

fun status_text :: "Status \<Rightarrow> string" where
  "status_text SelectTwoPdfs =
     ''PDF'' @ [CHR 0xE3, CHR 0x82, CHR 0x92] @ ''2'' @ [CHR 0xE3, CHR 0x81, CHR 0xA4,
       CHR 0xE9, CHR 0x81, CHR 0xB8, CHR 0xE6, CHR 0x8A, CHR 0x9E, CHR 0xE3, CHR 0x81, CHR 0x97,
       CHR 0xE3, CHR 0x81, CHR 0xA6, CHR 0xE3, CHR 0x81, CHR 0x8F, CHR 0xE3, CHR 0x81, CHR 0xA0,
       CHR 0xE3, CHR 0x81, CHR 0x95, CHR 0xE3, CHR 0x81, CHR 0x84, CHR 0xE3, CHR 0x80, CHR 0x82]"
| "status_text LoadFailedA =
     ''PDF A'' @ [CHR 0xE3, CHR 0x81, CHR 0xAE, CHR 0xE8, CHR 0xAA, CHR 0xAD, CHR 0xE3, CHR 0x81, CHR 0xBF,
       CHR 0xE8, CHR 0xBE, CHR 0xBC, CHR 0xE3, CHR 0x81, CHR 0xBF, CHR 0xE3, CHR 0x81, CHR 0xAB,
       CHR 0xE5, CHR 0xA4, CHR 0xB1, CHR 0xE6, CHR 0x95, CHR 0x97, CHR 0xE3, CHR 0x81, CHR 0x97,
       CHR 0xE3, CHR 0x81, CHR 0xBE, CHR 0xE3, CHR 0x81, CHR 0x97, CHR 0xE3, CHR 0x81, CHR 0x9F,
       CHR 0xE3, CHR 0x80, CHR 0x82]"
| "status_text LoadFailedB =
     ''PDF B'' @ [CHR 0xE3, CHR 0x81, CHR 0xAE, CHR 0xE8, CHR 0xAA, CHR 0xAD, CHR 0xE3, CHR 0x81, CHR 0xBF,
       CHR 0xE8, CHR 0xBE, CHR 0xBC, CHR 0xE3, CHR 0x81, CHR 0xBF, CHR 0xE3, CHR 0x81, CHR 0xAB,
       CHR 0xE5, CHR 0xA4, CHR 0xB1, CHR 0xE6, CHR 0x95, CHR 0x97, CHR 0xE3, CHR 0x81, CHR 0x97,
       CHR 0xE3, CHR 0x81, CHR 0xBE, CHR 0xE3, CHR 0x81, CHR 0x97, CHR 0xE3, CHR 0x81, CHR 0x9F,
       CHR 0xE3, CHR 0x80, CHR 0x82]"
| "status_text Merging =
     [CHR 0xE7, CHR 0xB5, CHR 0x90, CHR 0xE5, CHR 0x90, CHR 0x88, CHR 0xE4, CHR 0xB8, CHR 0xAD] @ ''...''"
| "status_text Done =
     [CHR 0xE5, CHR 0xAE, CHR 0x8C, CHR 0xE4, CHR 0xBA, CHR 0x86, CHR 0xE3, CHR 0x81, CHR 0x97,
      CHR 0xE3, CHR 0x81, CHR 0xBE, CHR 0xE3, CHR 0x81, CHR 0x97, CHR 0xE3, CHR 0x81, CHR 0x9F,
      CHR 0xE3, CHR 0x80, CHR 0x82]"
| "status_text MergeFailed =
     [CHR 0xE7, CHR 0xB5, CHR 0x90, CHR 0xE5, CHR 0x90, CHR 0x88, CHR 0xE3, CHR 0x81, CHR 0xAB,
      CHR 0xE5, CHR 0xA4, CHR 0xB1, CHR 0xE6, CHR 0x95, CHR 0x97, CHR 0xE3, CHR 0x81, CHR 0x97,
      CHR 0xE3, CHR 0x81, CHR 0xBE, CHR 0xE3, CHR 0x81, CHR 0x97, CHR 0xE3, CHR 0x81, CHR 0x9F,
      CHR 0xE3, CHR 0x80, CHR 0x82] @ ''PDF'' @ [CHR 0xE3, CHR 0x82, CHR 0x92,
      CHR 0xE7, CHR 0xA2, CHR 0xBA, CHR 0xE8, CHR 0xAA, CHR 0x8D, CHR 0xE3, CHR 0x81, CHR 0x97,
      CHR 0xE3, CHR 0x81, CHR 0xA6, CHR 0xE3, CHR 0x81, CHR 0x8F, CHR 0xE3, CHR 0x81, CHR 0xA0,
      CHR 0xE3, CHR 0x81, CHR 0x95, CHR 0xE3, CHR 0x81, CHR 0x84, CHR 0xE3, CHR 0x80, CHR 0x82]"

text \<open>The eight \<open>useState\<close> cells of the component \<open>App\<close>, with their initial values.\<close>

record App =
  oddFile :: "File option"
  evenFile :: "File option"
  oddInfo :: PdfInfo
  evenInfo :: PdfInfo
  status :: Status
  busy :: bool
  downloadUrl :: string
  resultInfo :: PdfInfo

definition initial :: App where
  "initial = \<lparr>oddFile = None, evenFile = None, oddInfo = emptyInfo, evenInfo = emptyInfo,
     status = SelectTwoPdfs, busy = False, downloadUrl = [], resultInfo = emptyInfo\<rparr>"

text \<open>\<open>canMerge = oddFile && evenFile && !busy\<close>, the negation of the button's \<open>disabled\<close>.\<close>

definition canMerge :: "App \<Rightarrow> bool" where
  "canMerge s = (oddFile s \<noteq> None \<and> evenFile s \<noteq> None \<and> \<not> busy s)"

text \<open>
  What the result panel renders: the download link is live when \<open>downloadUrl\<close> is not
  empty, and the metadata line shows \<open>resultInfo\<close> when \<open>resultInfo.pages\<close> is truthy.
\<close>

definition downloadEnabled :: "App \<Rightarrow> bool" where
  "downloadEnabled s = (downloadUrl s \<noteq> [])"

definition resultShown :: "App \<Rightarrow> PdfInfo option" where
  "resultShown s = (if pages (resultInfo s) \<noteq> 0 then Some (resultInfo s) else None)"

section \<open>The collaborators: file reader, PDF library, object URLs\<close>

text \<open>
  The browser and \<open>pdf-lib\<close> are outside the repository. One value of \<open>Env\<close> fixes how
  they answer during one run of a handler; two runs may be given two environments, since
  a read or a copy that worked once may fail the next time.
  \<^item> \<open>readFails file\<close>: the \<open>FileReader\<close> fires \<open>onerror\<close>, so \<open>readArrayBuffer\<close> rejects;
  \<^item> \<open>load bytes\<close>: \<open>PDFDocument.load\<close>; \<open>None\<close> when it rejects, otherwise the document,
    which is the list of its pages (\<open>getPages()\<close>; \<open>getPageCount()\<close> is its length);
  \<^item> \<open>copyThrows src i\<close>: \<open>output.copyPages(src, [i])\<close> rejects; when it does not, the page
    it yields is page \<open>i\<close> of the source (a page stands for its content);
  \<^item> \<open>save doc\<close>: the serialization that \<open>output.save()\<close> performs, the bytes, or \<open>None\<close>
    when it rejects;
  \<^item> \<open>defaultPage\<close>: the blank page that \<open>output.save()\<close>, called as here with the
    library's default options, adds to a document that has no page before it serializes
    (\<open>addDefaultPage\<close> below); the document keeps that page;
  \<^item> \<open>objectId\<close>: the identifier \<open>URL.createObjectURL\<close> chooses.
\<close>

datatype Source = OddPdf | EvenPdf

record 'p Env =
  readFails :: "File \<Rightarrow> bool"
  load :: "nat list \<Rightarrow> 'p list option"
  copyThrows :: "Source \<Rightarrow> nat \<Rightarrow> bool"
  save :: "'p list \<Rightarrow> nat list option"
  defaultPage :: 'p
  objectId :: string

definition readArrayBuffer :: "'p Env \<Rightarrow> File \<Rightarrow> nat list option" where
  "readArrayBuffer env file = (if readFails env file then None else Some (file_bytes file))"

text \<open>
  The first step of \<open>output.save()\<close>: a document without pages receives the default page;
  any other document is left as it is.
\<close>

definition addDefaultPage :: "'p Env \<Rightarrow> 'p list \<Rightarrow> 'p list" where
  "addDefaultPage env doc = (if doc = [] then [defaultPage env] else doc)"

text \<open>An object URL is \<open>blob:\<close> followed by an identifier, hence never empty.\<close>

definition createObjectURL :: "'p Env \<Rightarrow> string" where
  "createObjectURL env = ''blob:'' @ objectId env"

section \<open>\<open>formatBytes\<close>\<close>

text \<open>
  \<open>Number.prototype.toFixed\<close> on a value \<open>x\<close> with \<open>0 \<le> x < 10^21\<close>: the integer \<open>n\<close>
  nearest to \<open>x * 10^f\<close> (the larger one on a tie), its decimal digits, padded with
  zeros to at least \<open>f + 1\<close> digits, and a point before the last \<open>f\<close> digits.

  The argument of \<open>formatBytes\<close> is a byte count (\<open>file.size\<close>, \<open>blob.size\<close> or 0) or
  absent (\<open>undefined\<close>, \<open>NaN\<close>, for which \<open>!bytes && bytes !== 0\<close> holds). On a byte count
  every step of the loop is exact in double precision (a division by a power of two, a
  comparison), and \<open>toFixed\<close> rounds the exact value, so the value is a rational here.
\<close>

definition digit :: "nat \<Rightarrow> char" where
  "digit d = ''0123456789'' ! d"

fun decimal :: "nat \<Rightarrow> string" where
  "decimal n = (if n < 10 then [digit n] else decimal (n div 10) @ [digit (n mod 10)])"

definition toFixed :: "rat \<Rightarrow> nat \<Rightarrow> string" where
  "toFixed x f =
     (let n = nat \<lfloor>x * 10 ^ f + 1 / 2\<rfloor>;
          m = decimal n
      in if f = 0 then m
         else (let m' = replicate (f + 1 - length m) (CHR ''0'') @ m;
                   k = length m'
               in take (k - f) m' @ ''.'' @ drop (k - f) m'))"

definition units :: "string list" where
  "units = [''B'', ''KB'', ''MB'', ''GB'']"

function formatBytes_loop :: "rat \<Rightarrow> nat \<Rightarrow> rat \<times> nat" where
  "formatBytes_loop val idx =
     (if val \<ge> 1024 \<and> idx < length units - 1
      then formatBytes_loop (val / 1024) (idx + 1)
      else (val, idx))"
  by pat_completeness auto
termination
  by (relation "measure (\<lambda>(val, idx). length units - 1 - idx)") auto

fun formatBytes :: "nat option \<Rightarrow> string" where
  "formatBytes None = ''-''"
| "formatBytes (Some bytes) =
     (case formatBytes_loop (of_nat bytes) 0 of
        (val, idx) \<Rightarrow> toFixed val (if val \<ge> 10 \<or> idx = 0 then 0 else 1) @ '' '' @ units ! idx)"

section \<open>The handlers\<close>

text \<open>
  \<open>inspectPdf\<close>: read the file, load it, and hand the metadata to \<open>setInfo\<close>;
  \<open>None\<close> when the read or the load rejects. Both callers pass a file that is present,
  so the guard \<open>if (!file) return\<close> never fires.
\<close>

definition inspectPdf :: "'p Env \<Rightarrow> File \<Rightarrow> PdfInfo option" where
  "inspectPdf env file =
     (case readArrayBuffer env file of
        None \<Rightarrow> None
      | Some bytes \<Rightarrow>
          (case load env bytes of
             None \<Rightarrow> None
           | Some pdf \<Rightarrow> Some \<lparr>name = file_name file, pages = length pdf, size_info = file_size file\<rparr>))"

text \<open>
  Each handler is \<open>async\<close>: it runs up to its first \<open>await\<close> at once (\<open>_sync\<close>) and the
  rest when the awaited promise settles (\<open>_resume\<close>). The handler's name alone is the
  run that nothing interrupts.
\<close>

definition handleOddChange_sync :: "File option \<Rightarrow> App \<Rightarrow> App" where
  "handleOddChange_sync file s =
     (let s1 = s\<lparr>oddFile := file, downloadUrl := [], resultInfo := emptyInfo\<rparr>
      in case file of
           None \<Rightarrow> s1\<lparr>oddInfo := emptyInfo, status := SelectTwoPdfs\<rparr>
         | Some f \<Rightarrow> s1)"

definition handleOddChange_resume :: "'p Env \<Rightarrow> File \<Rightarrow> App \<Rightarrow> App" where
  "handleOddChange_resume env file s =
     (case inspectPdf env file of
        Some info \<Rightarrow> s\<lparr>oddInfo := info, status := SelectTwoPdfs\<rparr>
      | None \<Rightarrow> s\<lparr>status := LoadFailedA, oddInfo := emptyInfo\<rparr>)"

definition handleOddChange :: "'p Env \<Rightarrow> File option \<Rightarrow> App \<Rightarrow> App" where
  "handleOddChange env file s =
     (case file of
        None \<Rightarrow> handleOddChange_sync file s
      | Some f \<Rightarrow> handleOddChange_resume env f (handleOddChange_sync file s))"

definition handleEvenChange_sync :: "File option \<Rightarrow> App \<Rightarrow> App" where
  "handleEvenChange_sync file s =
     (let s1 = s\<lparr>evenFile := file, downloadUrl := [], resultInfo := emptyInfo\<rparr>
      in case file of
           None \<Rightarrow> s1\<lparr>evenInfo := emptyInfo, status := SelectTwoPdfs\<rparr>
         | Some f \<Rightarrow> s1)"

definition handleEvenChange_resume :: "'p Env \<Rightarrow> File \<Rightarrow> App \<Rightarrow> App" where
  "handleEvenChange_resume env file s =
     (case inspectPdf env file of
        Some info \<Rightarrow> s\<lparr>evenInfo := info, status := SelectTwoPdfs\<rparr>
      | None \<Rightarrow> s\<lparr>status := LoadFailedB, evenInfo := emptyInfo\<rparr>)"

definition handleEvenChange :: "'p Env \<Rightarrow> File option \<Rightarrow> App \<Rightarrow> App" where
  "handleEvenChange env file s =
     (case file of
        None \<Rightarrow> handleEvenChange_sync file s
      | Some f \<Rightarrow> handleEvenChange_resume env f (handleEvenChange_sync file s))"

section \<open>\<open>mergePdfs\<close>\<close>

text \<open>\<open>const [page] = await output.copyPages(src, [i]); output.addPage(page)\<close>\<close>

definition copyAndAdd :: "'p Env \<Rightarrow> Source \<Rightarrow> 'p list \<Rightarrow> nat \<Rightarrow> 'p list \<Rightarrow> 'p list option" where
  "copyAndAdd env src srcPages i output =
     (if copyThrows env src i then None else Some (output @ [srcPages ! i]))"

text \<open>The \<open>for\<close> loop of lines 140 to 149, from index \<open>i\<close> with the pages added so far.\<close>

function mergeLoop ::
  "'p Env \<Rightarrow> 'p list \<Rightarrow> 'p list \<Rightarrow> nat \<Rightarrow> nat \<Rightarrow> 'p list \<Rightarrow> 'p list option" where
  "mergeLoop env oddPages evenPages maxPages i output =
     (if i < maxPages then
        (case (if i < length oddPages then copyAndAdd env OddPdf oddPages i output
               else Some output) of
           None \<Rightarrow> None
         | Some output1 \<Rightarrow>
             (case (if i < length evenPages then copyAndAdd env EvenPdf evenPages i output1
                    else Some output1) of
                None \<Rightarrow> None
              | Some output2 \<Rightarrow> mergeLoop env oddPages evenPages maxPages (i + 1) output2))
      else Some output)"
  by pat_completeness auto
termination
  by (relation "measure (\<lambda>(env, oddPages, evenPages, maxPages, i, output). maxPages - i)") auto

text \<open>Lines 135 to 149: the empty output document, \<open>maxPages\<close>, and the loop.\<close>

definition interleave :: "'p Env \<Rightarrow> 'p list \<Rightarrow> 'p list \<Rightarrow> 'p list option" where
  "interleave env oddPages evenPages =
     mergeLoop env oddPages evenPages (max (length oddPages) (length evenPages)) 0 []"

text \<open>
  The body of the \<open>try\<close> block: \<open>None\<close> when anything in it throws, otherwise the output
  document as \<open>save\<close> leaves it, the object URL and the metadata that the three setters
  receive. \<open>output.getPageCount()\<close> is read after \<open>output.save()\<close>, hence on the saved
  document.
\<close>

record 'p Merged =
  output_pages :: "'p list"
  url :: string
  info :: PdfInfo

definition mergeTry :: "'p Env \<Rightarrow> File \<Rightarrow> File \<Rightarrow> 'p Merged option" where
  "mergeTry env oddF evenF =
     (case readArrayBuffer env oddF of None \<Rightarrow> None | Some oddBytes \<Rightarrow>
     (case readArrayBuffer env evenF of None \<Rightarrow> None | Some evenBytes \<Rightarrow>
     (case load env oddBytes of None \<Rightarrow> None | Some oddPdf \<Rightarrow>
     (case load env evenBytes of None \<Rightarrow> None | Some evenPdf \<Rightarrow>
     (case interleave env oddPdf evenPdf of None \<Rightarrow> None | Some output \<Rightarrow>
     (let saved = addDefaultPage env output in
     (case save env saved of None \<Rightarrow> None | Some mergedBytes \<Rightarrow>
        (let baseName = (if file_name oddF \<noteq> [] then file_name oddF else ''interleaved.pdf'');
             mergedName = ''al-'' @ baseName
         in Some \<lparr>output_pages = saved, url = createObjectURL env,
                   info = \<lparr>name = mergedName, pages = length saved,
                            size_info = length mergedBytes\<rparr>\<rparr>))))))))"

text \<open>
  \<open>mergePdfs\<close> up to its first \<open>await\<close>: the guard of line 121 and the three setters
  before \<open>try\<close>.
\<close>

definition mergePdfs_sync :: "App \<Rightarrow> App" where
  "mergePdfs_sync s =
     (if oddFile s = None \<or> evenFile s = None then s
      else s\<lparr>busy := True, status := Merging, downloadUrl := []\<rparr>)"

text \<open>
  The rest of \<open>mergePdfs\<close>, on the two files its closure holds: the \<open>try\<close> block's
  setters or the \<open>catch\<close>, then \<open>finally\<close>.
\<close>

definition mergePdfs_resume :: "'p Env \<Rightarrow> File \<Rightarrow> File \<Rightarrow> App \<Rightarrow> App" where
  "mergePdfs_resume env oddF evenF s =
     (case mergeTry env oddF evenF of
        Some m \<Rightarrow> s\<lparr>downloadUrl := url m, resultInfo := info m, status := Done\<rparr>
      | None \<Rightarrow> s\<lparr>status := MergeFailed\<rparr>)\<lparr>busy := False\<rparr>"

definition mergePdfs :: "'p Env \<Rightarrow> App \<Rightarrow> App" where
  "mergePdfs env s =
     (case (oddFile s, evenFile s) of
        (Some oddF, Some evenF) \<Rightarrow> mergePdfs_resume env oddF evenF (mergePdfs_sync s)
      | _ \<Rightarrow> mergePdfs_sync s)"

text \<open>
  The button: \<open>onClick={mergePdfs} disabled={!canMerge}\<close>. A disabled button fires no
  click event, so a click reaches \<open>mergePdfs\<close> only when \<open>canMerge\<close> holds.
\<close>

definition clickMerge :: "'p Env \<Rightarrow> App \<Rightarrow> App" where
  "clickMerge env s = (if canMerge s then mergePdfs env s else s)"

section \<open>The component as a transition system\<close>

text \<open>
  What can happen to the component: a click on the merge button, the settling of the
  promise a running \<open>mergePdfs\<close> awaits, and a change of either file input. The state
  of the system is the state of the component together with the merges that have
  started and not yet finished, each with the two files its closure holds. The button
  is rendered from the current state, so a click is taken when \<open>canMerge\<close> holds now.
  The file handlers never write \<open>busy\<close>; they are taken in one step.
\<close>

datatype 'p Event =
    Click
  | Settle "'p Env"
  | OddChange "'p Env" "File option"
  | EvenChange "'p Env" "File option"

type_synonym System = "App \<times> (File \<times> File) list"

fun step :: "'p Event \<Rightarrow> System \<Rightarrow> System" where
  "step Click (s, running) =
     (if canMerge s then
        (case (oddFile s, evenFile s) of
           (Some oddF, Some evenF) \<Rightarrow> (mergePdfs_sync s, running @ [(oddF, evenF)])
         | _ \<Rightarrow> (mergePdfs_sync s, running))
      else (s, running))"
| "step (Settle env) (s, running) =
     (case running of
        [] \<Rightarrow> (s, [])
      | (oddF, evenF) # rest \<Rightarrow> (mergePdfs_resume env oddF evenF s, rest))"
| "step (OddChange env file) (s, running) = (handleOddChange env file s, running)"
| "step (EvenChange env file) (s, running) = (handleEvenChange env file s, running)"

definition run :: "'p Event list \<Rightarrow> System" where
  "run events = foldl (\<lambda>c e. step e c) (initial, []) events"

section \<open>Notions used to state the properties\<close>

text \<open>
  The document that \<open>mergePdfs\<close> (and \<open>inspectPdf\<close>) obtains from a file: the
  read followed by the load.
\<close>

definition loadFile :: "'p Env \<Rightarrow> File \<Rightarrow> 'p list option" where
  "loadFile env file =
     (case readArrayBuffer env file of None \<Rightarrow> None | Some bytes \<Rightarrow> load env bytes)"

text \<open>Some page copy that the loop performs from index \<open>i\<close> on throws.\<close>

definition throwsFrom :: "'p Env \<Rightarrow> 'p list \<Rightarrow> 'p list \<Rightarrow> nat \<Rightarrow> bool" where
  "throwsFrom env A B i =
     ((\<exists>j \<in> {i ..< length A}. copyThrows env OddPdf j) \<or>
      (\<exists>j \<in> {i ..< length B}. copyThrows env EvenPdf j))"

text \<open>
  The page sequence the specification prescribes: for each index below the larger page
  count, page \<open>i\<close> of \<open>A\<close> if there is one, then page \<open>i\<close> of \<open>B\<close> if there is one.
\<close>

definition alternation :: "'a list \<Rightarrow> 'a list \<Rightarrow> 'a list" where
  "alternation A B =
     concat (map (\<lambda>i. (if i < length A then [A ! i] else []) @
                      (if i < length B then [B ! i] else []))
                 [0 ..< max (length A) (length B)])"

text \<open>
  The merges in flight are well accounted for: at most one, and \<open>busy\<close> exactly then.
\<close>

definition inFlightOk :: "System \<Rightarrow> bool" where
  "inFlightOk c = (length (snd c) \<le> 1 \<and> (busy (fst c) \<longleftrightarrow> snd c \<noteq> []))"

text \<open>
  How many times a byte count is divided by 1024 when one divides while the value is at
  least 1024 and fewer than three divisions have been made.
\<close>

definition divisions :: "nat \<Rightarrow> nat" where
  "divisions b = (if b < 1024 then 0 else if b < 1024 ^ 2 then 1 else if b < 1024 ^ 3 then 2 else 3)"

text \<open>The number of characters after the decimal point of a rendered number.\<close>

definition decimalPlaces :: "string \<Rightarrow> nat" where
  "decimalPlaces str =
     (if CHR ''.'' \<in> set str then length (takeWhile (\<lambda>c. c \<noteq> CHR ''.'') (rev str)) else 0)"

section \<open>Concrete inputs\<close>

text \<open>
  A toy collaborator: every read succeeds, a file parses when it is not empty, each
  byte other than 0 being one page, no copy throws, the default page is page 0, and
  saving yields one byte per page. \<open>exEnvSaveFails\<close> differs in that \<open>save\<close> rejects.
\<close>

definition exEnv :: "nat Env" where
  "exEnv = \<lparr>readFails = (\<lambda>file. False),
            load = (\<lambda>bytes. if bytes = [] then None else Some (filter (\<lambda>b. b \<noteq> 0) bytes)),
            copyThrows = (\<lambda>src i. False),
            save = (\<lambda>doc. Some doc),
            defaultPage = 0,
            objectId = ''0''\<rparr>"

definition exEnvSaveFails :: "nat Env" where
  "exEnvSaveFails = exEnv\<lparr>save := (\<lambda>doc. None)\<rparr>"

definition exFileA :: File where
  "exFileA = \<lparr>file_name = ''report.pdf'', file_bytes = [10, 11, 12]\<rparr>"

definition exFileB :: File where
  "exFileB = \<lparr>file_name = ''notes.pdf'', file_bytes = [20, 21]\<rparr>"

definition exFileC :: File where
  "exFileC = \<lparr>file_name = [], file_bytes = [30, 31]\<rparr>"

definition exFileI :: File where
  "exFileI = \<lparr>file_name = ''interleaved.pdf'', file_bytes = [40]\<rparr>"

definition exBadFile :: File where
  "exBadFile = \<lparr>file_name = ''broken.pdf'', file_bytes = []\<rparr>"

text \<open>Two files that parse as documents without pages, and the state with both selected.\<close>

definition exEmptyA :: File where
  "exEmptyA = \<lparr>file_name = ''blank-a.pdf'', file_bytes = [0]\<rparr>"

definition exEmptyB :: File where
  "exEmptyB = \<lparr>file_name = ''blank-b.pdf'', file_bytes = [0]\<rparr>"

definition exPagelessSelected :: App where
  "exPagelessSelected =
     handleEvenChange exEnv (Some exEmptyB) (handleOddChange exEnv (Some exEmptyA) initial)"

text \<open>Both files selected; then merged once; then a second merge whose \<open>save\<close> rejects.\<close>

definition exSelected :: App where
  "exSelected = handleEvenChange exEnv (Some exFileB) (handleOddChange exEnv (Some exFileA) initial)"

definition exMerged :: App where
  "exMerged = clickMerge exEnv exSelected"

definition exRemergeFailed :: App where
  "exRemergeFailed = clickMerge exEnvSaveFails exMerged"

text \<open>After the first merge, a file that does not parse is chosen for slot A.\<close>

definition exFailedA :: App where
  "exFailedA = handleOddChange exEnv (Some exBadFile) exMerged"

section \<open>The page loop\<close>

declare mergeLoop.simps [simp del] formatBytes_loop.simps [simp del] decimal.simps [simp del]

lemma splice_step:
  assumes "i < max (length A) (length B)"
  shows "splice (drop i A) (drop i B) =
     (if i < length A then [A ! i] else []) @ (if i < length B then [B ! i] else []) @
     splice (drop (Suc i) A) (drop (Suc i) B)"
proof (cases "i < length A")
  case True
  then have a: "drop i A = A ! i # drop (Suc i) A" by (simp add: Cons_nth_drop_Suc)
  show ?thesis
  proof (cases "i < length B")
    case True
    then have b: "drop i B = B ! i # drop (Suc i) B" by (simp add: Cons_nth_drop_Suc)
    show ?thesis using True \<open>i < length A\<close> by (simp add: a b)
  next
    case False
    then show ?thesis using True by (simp add: a)
  qed
next
  case False
  with assms have "i < length B" by simp
  then have b: "drop i B = B ! i # drop (Suc i) B" by (simp add: Cons_nth_drop_Suc)
  show ?thesis using False \<open>i < length B\<close> by (simp add: b)
qed

lemma throwsFrom_step:
  "throwsFrom env A B i =
     ((i < length A \<and> copyThrows env OddPdf i) \<or> (i < length B \<and> copyThrows env EvenPdf i) \<or>
      throwsFrom env A B (Suc i))"
  unfolding throwsFrom_def Bex_def atLeastLessThan_iff
  by (metis Suc_leI Suc_leD le_neq_implies_less order_refl)

lemma mergeLoop_splice:
  "maxPages = max (length A) (length B) \<Longrightarrow>
   mergeLoop env A B maxPages i acc =
     (if throwsFrom env A B i then None else Some (acc @ splice (drop i A) (drop i B)))"
proof (induction env A B maxPages i acc rule: mergeLoop.induct)
  case (1 env A B maxPages i acc)
  show ?case
  proof (cases "i < maxPages")
    case False
    then show ?thesis using "1.prems"
      by (subst mergeLoop.simps) (auto simp: throwsFrom_def)
  next
    case True
    define out1 where "out1 = (if i < length A then copyAndAdd env OddPdf A i acc else Some acc)"
    show ?thesis
    proof (cases out1)
      case None
      then have "i < length A \<and> copyThrows env OddPdf i"
        by (auto simp: out1_def copyAndAdd_def split: if_splits)
      then have "throwsFrom env A B i" by (subst throwsFrom_step) simp
      moreover have "mergeLoop env A B maxPages i acc = None"
        using True None by (subst mergeLoop.simps) (simp add: out1_def)
      ultimately show ?thesis by simp
    next
      case (Some o1)
      then have o1: "o1 = acc @ (if i < length A then [A ! i] else [])"
        and nt1: "\<not> (i < length A \<and> copyThrows env OddPdf i)"
        by (auto simp: out1_def copyAndAdd_def split: if_splits)
      define out2 where "out2 = (if i < length B then copyAndAdd env EvenPdf B i o1 else Some o1)"
      show ?thesis
      proof (cases out2)
        case None
        then have "i < length B \<and> copyThrows env EvenPdf i"
          by (auto simp: out2_def copyAndAdd_def split: if_splits)
        then have "throwsFrom env A B i" by (subst throwsFrom_step) simp
        moreover have "mergeLoop env A B maxPages i acc = None"
          using True Some None by (subst mergeLoop.simps) (simp add: out1_def out2_def)
        ultimately show ?thesis by simp
      next
        case (Some o2)
        then have o2: "o2 = o1 @ (if i < length B then [B ! i] else [])"
          and nt2: "\<not> (i < length B \<and> copyThrows env EvenPdf i)"
          by (auto simp: out2_def copyAndAdd_def split: if_splits)
        have step: "mergeLoop env A B maxPages i acc = mergeLoop env A B maxPages (i + 1) o2"
          using True \<open>out1 = Some o1\<close> Some by (subst mergeLoop.simps) (simp add: out1_def out2_def)
        have ih: "mergeLoop env A B maxPages (i + 1) o2 =
            (if throwsFrom env A B (i + 1) then None
             else Some (o2 @ splice (drop (i + 1) A) (drop (i + 1) B)))"
          using "1.IH"[OF True \<open>out1 = Some o1\<close>[unfolded out1_def] Some[unfolded out2_def] "1.prems"] .
        have tf: "throwsFrom env A B i = throwsFrom env A B (Suc i)"
          using nt1 nt2 by (subst throwsFrom_step) blast
        have sp: "acc @ splice (drop i A) (drop i B) = o2 @ splice (drop (Suc i) A) (drop (Suc i) B)"
          using True "1.prems" by (simp add: splice_step o1 o2)
        show ?thesis using step ih tf sp by simp
      qed
    qed
  qed
qed

lemma interleave_eq:
  "interleave env A B = (if throwsFrom env A B 0 then None else Some (splice A B))"
  unfolding interleave_def by (simp add: mergeLoop_splice)

lemma alternation_from:
  "n = max (length A) (length B) \<Longrightarrow> i \<le> n \<Longrightarrow>
   concat (map (\<lambda>i. (if i < length A then [A ! i] else []) @
                    (if i < length B then [B ! i] else [])) [i ..< n]) =
   splice (drop i A) (drop i B)"
proof (induction "n - i" arbitrary: i)
  case 0
  then show ?case by simp
next
  case (Suc d)
  then have lt: "i < n" and d: "d = n - Suc i" and le: "Suc i \<le> n" by simp_all
  have "[i ..< n] = i # [Suc i ..< n]" using lt by (simp add: upt_conv_Cons)
  then show ?case
    using Suc.hyps(1)[OF d Suc.prems(1) le] splice_step[of i A B] lt Suc.prems(1)
    by simp
qed

lemma alternation_splice: "alternation A B = splice A B"
  unfolding alternation_def using alternation_from[of _ A B 0] by simp

lemma splice_Cons_Cons: "splice (x # xs) (y # ys) = x # y # splice xs ys"
  by simp

lemma splice_pairs:
  "k < length A \<Longrightarrow> k < length B \<Longrightarrow>
   splice A B ! (2 * k) = A ! k \<and> splice A B ! (2 * k + 1) = B ! k"
proof (induction A arbitrary: B k)
  case Nil
  then show ?case by simp
next
  case (Cons x xs)
  then obtain y ys where B: "B = y # ys" by (cases B) auto
  show ?case
  proof (cases k)
    case 0
    then show ?thesis by (simp add: B)
  next
    case (Suc k')
    with Cons.prems B have "k' < length xs" "k' < length ys" by simp_all
    from Cons.IH[OF this] show ?thesis by (simp add: B Suc)
  qed
qed

lemma splice_tail:
  "splice A B =
     splice (take (min (length A) (length B)) A) (take (min (length A) (length B)) B) @
     drop (length B) A @ drop (length A) B"
proof (induction A arbitrary: B)
  case Nil
  then show ?case by simp
next
  case (Cons x xs)
  show ?case
  proof (cases B)
    case Nil
    then show ?thesis by simp
  next
    case (Cons y ys)
    then show ?thesis using Cons.IH[of ys] by simp
  qed
qed

lemma splice_drop_longer_odd:
  assumes "length B \<le> length A"
  shows "drop (2 * length B) (splice A B) = drop (length B) A"
proof -
  let ?n = "min (length A) (length B)"
  have n: "?n = length B" using assms by simp
  have "length (splice (take ?n A) (take ?n B)) = 2 * length B" using assms by simp
  moreover have "splice A B = splice (take ?n A) (take ?n B) @ drop (length B) A"
    using splice_tail[of A B] assms by simp
  ultimately show ?thesis by (metis append_eq_conv_conj)
qed

lemma splice_drop_longer_even:
  assumes "length A \<le> length B"
  shows "drop (2 * length A) (splice A B) = drop (length A) B"
proof -
  let ?n = "min (length A) (length B)"
  have "length (splice (take ?n A) (take ?n B)) = 2 * length A" using assms by simp
  moreover have "splice A B = splice (take ?n A) (take ?n B) @ drop (length A) B"
    using splice_tail[of A B] assms by simp
  ultimately show ?thesis by (metis append_eq_conv_conj)
qed

lemma mset_splice_union: "mset (splice A B) = mset A + mset B"
  by (induction A B rule: splice.induct) simp_all

section \<open>The \<open>try\<close> block\<close>

lemma addDefaultPage_nonempty: "doc \<noteq> [] \<Longrightarrow> addDefaultPage env doc = doc"
  by (simp add: addDefaultPage_def)

lemma addDefaultPage_splice:
  "addDefaultPage env (splice A B) = (if A = [] \<and> B = [] then [defaultPage env] else splice A B)"
  by (simp add: addDefaultPage_def)

lemma mergeTry_Some:
  "mergeTry env oddF evenF = Some m \<longleftrightarrow>
     (\<exists>A B out mergedBytes.
        loadFile env oddF = Some A \<and> loadFile env evenF = Some B \<and>
        interleave env A B = Some out \<and>
        save env (addDefaultPage env out) = Some mergedBytes \<and>
        m = \<lparr>output_pages = addDefaultPage env out, url = createObjectURL env,
             info = \<lparr>name = ''al-'' @ (if file_name oddF \<noteq> [] then file_name oddF
                                        else ''interleaved.pdf''),
                     pages = length (addDefaultPage env out),
                     size_info = length mergedBytes\<rparr>\<rparr>)"
  unfolding mergeTry_def loadFile_def
  by (auto simp: Let_def split: option.splits)

lemma mergeTry_None:
  "mergeTry env oddF evenF = None \<longleftrightarrow>
     (loadFile env oddF = None \<or> loadFile env evenF = None \<or>
      (\<exists>A B. loadFile env oddF = Some A \<and> loadFile env evenF = Some B \<and>
         (interleave env A B = None \<or>
          (\<exists>out. interleave env A B = Some out \<and>
                 save env (addDefaultPage env out) = None))))"
  unfolding mergeTry_def loadFile_def
  by (auto simp: Let_def split: option.splits)

lemma mergeTry_SomeE:
  assumes "mergeTry env oddF evenF = Some m"
  obtains A B where
    "loadFile env oddF = Some A" and "loadFile env evenF = Some B" and
    "interleave env A B = Some (splice A B)" and
    "output_pages m = addDefaultPage env (splice A B)" and
    "save env (output_pages m) \<noteq> None" and
    "url m = createObjectURL env" and
    "name (info m) = ''al-'' @ (if file_name oddF \<noteq> [] then file_name oddF
                               else ''interleaved.pdf'')" and
    "pages (info m) = length (output_pages m)" and
    "size_info (info m) = length (the (save env (output_pages m)))"
proof -
  from assms obtain A B out mergedBytes where
    A: "loadFile env oddF = Some A" and B: "loadFile env evenF = Some B" and
    out: "interleave env A B = Some out" and
    sv: "save env (addDefaultPage env out) = Some mergedBytes" and
    op: "output_pages m = addDefaultPage env out" and
    u: "url m = createObjectURL env" and
    i: "info m = \<lparr>name = ''al-'' @ (if file_name oddF \<noteq> [] then file_name oddF
                                      else ''interleaved.pdf''),
                  pages = length (addDefaultPage env out),
                  size_info = length mergedBytes\<rparr>"
    unfolding mergeTry_def loadFile_def
    by (auto simp: Let_def split: option.splits)
  from out have sp: "out = splice A B"
    by (simp add: interleave_eq split: if_splits)
  show ?thesis
    using that[OF A B] out sv op u i by (simp add: sp)
qed

lemma mergeTry_succeeds:
  assumes "loadFile env oddF = Some A" and "loadFile env evenF = Some B"
    and "\<not> throwsFrom env A B 0"
    and "save env (addDefaultPage env (alternation A B)) \<noteq> None"
  shows "\<exists>m. mergeTry env oddF evenF = Some m \<and>
           output_pages m = addDefaultPage env (alternation A B)"
proof -
  from assms(4) obtain mergedBytes where
    sv: "save env (addDefaultPage env (splice A B)) = Some mergedBytes"
    by (auto simp: alternation_splice)
  have il: "interleave env A B = Some (splice A B)"
    using assms(3) by (simp add: interleave_eq)
  obtain oddBytes evenBytes where
    r: "readArrayBuffer env oddF = Some oddBytes" "load env oddBytes = Some A"
       "readArrayBuffer env evenF = Some evenBytes" "load env evenBytes = Some B"
    using assms(1,2) by (auto simp: loadFile_def split: option.splits)
  show ?thesis
    by (simp add: mergeTry_def r il sv Let_def alternation_splice)
qed

section \<open>The concrete inputs, evaluated\<close>

lemma ex_loadFile:
  "loadFile exEnv exFileA = Some [10, 11, 12]"
  "loadFile exEnv exFileB = Some [20, 21]"
  "loadFile exEnv exFileC = Some [30, 31]"
  "loadFile exEnv exFileI = Some [40]"
  "loadFile exEnv exBadFile = None"
  by (simp_all add: loadFile_def readArrayBuffer_def exEnv_def exFileA_def exFileB_def
        exFileC_def exFileI_def exBadFile_def)

lemma ex_loadFile_SaveFails: "loadFile exEnvSaveFails file = loadFile exEnv file"
  by (simp add: loadFile_def readArrayBuffer_def exEnvSaveFails_def)

lemma ex_no_throw: "\<not> throwsFrom exEnv A B i" "\<not> throwsFrom exEnvSaveFails A B i"
  by (simp_all add: throwsFrom_def exEnv_def exEnvSaveFails_def)

lemma ex_mergeTry:
  "mergeTry exEnv exFileA exFileB =
     Some \<lparr>output_pages = [10, 20, 11, 21, 12], url = ''blob:0'',
           info = \<lparr>name = ''al-report.pdf'', pages = 5, size_info = 5\<rparr>\<rparr>"
  "mergeTry exEnv exFileB exFileC =
     Some \<lparr>output_pages = [20, 30, 21, 31], url = ''blob:0'',
           info = \<lparr>name = ''al-notes.pdf'', pages = 4, size_info = 4\<rparr>\<rparr>"
  "mergeTry exEnv exFileC exFileB =
     Some \<lparr>output_pages = [30, 20, 31, 21], url = ''blob:0'',
           info = \<lparr>name = ''al-interleaved.pdf'', pages = 4, size_info = 4\<rparr>\<rparr>"
  "mergeTry exEnv exFileI exFileB =
     Some \<lparr>output_pages = [40, 20, 21], url = ''blob:0'',
           info = \<lparr>name = ''al-interleaved.pdf'', pages = 3, size_info = 3\<rparr>\<rparr>"
  unfolding mergeTry_Some
  by (simp_all add: ex_loadFile interleave_eq ex_no_throw addDefaultPage_def)
     (simp_all add: exEnv_def createObjectURL_def exFileA_def exFileB_def exFileC_def exFileI_def)

lemma ex_mergeTry_None:
  "mergeTry exEnvSaveFails exFileA exFileB = None"
  "mergeTry exEnv exBadFile exFileB = None"
  unfolding mergeTry_None
  by (simp_all add: ex_loadFile ex_loadFile_SaveFails interleave_eq ex_no_throw)
     (simp_all add: exEnvSaveFails_def)

lemma ex_inspectPdf:
  "inspectPdf exEnv exFileA = Some \<lparr>name = ''report.pdf'', pages = 3, size_info = 3\<rparr>"
  "inspectPdf exEnv exFileB = Some \<lparr>name = ''notes.pdf'', pages = 2, size_info = 2\<rparr>"
  "inspectPdf exEnv exBadFile = None"
  by (simp_all add: inspectPdf_def readArrayBuffer_def exEnv_def exFileA_def exFileB_def
        exBadFile_def file_size_def)

lemma ex_exSelected:
  "exSelected = \<lparr>oddFile = Some exFileA, evenFile = Some exFileB,
      oddInfo = \<lparr>name = ''report.pdf'', pages = 3, size_info = 3\<rparr>,
      evenInfo = \<lparr>name = ''notes.pdf'', pages = 2, size_info = 2\<rparr>,
      status = SelectTwoPdfs, busy = False, downloadUrl = [], resultInfo = emptyInfo\<rparr>"
  by (simp add: exSelected_def handleEvenChange_def handleOddChange_def
        handleEvenChange_sync_def handleOddChange_sync_def
        handleEvenChange_resume_def handleOddChange_resume_def ex_inspectPdf initial_def)

lemma ex_exMerged:
  "exMerged = \<lparr>oddFile = Some exFileA, evenFile = Some exFileB,
      oddInfo = \<lparr>name = ''report.pdf'', pages = 3, size_info = 3\<rparr>,
      evenInfo = \<lparr>name = ''notes.pdf'', pages = 2, size_info = 2\<rparr>,
      status = Done, busy = False, downloadUrl = ''blob:0'',
      resultInfo = \<lparr>name = ''al-report.pdf'', pages = 5, size_info = 5\<rparr>\<rparr>"
  by (simp add: exMerged_def ex_exSelected clickMerge_def canMerge_def mergePdfs_def
        mergePdfs_sync_def mergePdfs_resume_def ex_mergeTry)

lemma ex_exRemergeFailed:
  "exRemergeFailed = \<lparr>oddFile = Some exFileA, evenFile = Some exFileB,
      oddInfo = \<lparr>name = ''report.pdf'', pages = 3, size_info = 3\<rparr>,
      evenInfo = \<lparr>name = ''notes.pdf'', pages = 2, size_info = 2\<rparr>,
      status = MergeFailed, busy = False, downloadUrl = [],
      resultInfo = \<lparr>name = ''al-report.pdf'', pages = 5, size_info = 5\<rparr>\<rparr>"
  by (simp add: exRemergeFailed_def ex_exMerged clickMerge_def canMerge_def mergePdfs_def
        mergePdfs_sync_def mergePdfs_resume_def ex_mergeTry_None)

lemma ex_pageless_loadFile:
  "loadFile exEnv exEmptyA = Some []" "loadFile exEnv exEmptyB = Some []"
  by (simp_all add: loadFile_def readArrayBuffer_def exEnv_def exEmptyA_def exEmptyB_def)

lemma ex_pageless_mergeTry:
  "mergeTry exEnv exEmptyA exEmptyB =
     Some \<lparr>output_pages = [0], url = ''blob:0'',
           info = \<lparr>name = ''al-blank-a.pdf'', pages = 1, size_info = 1\<rparr>\<rparr>"
  unfolding mergeTry_Some
  by (simp add: ex_pageless_loadFile interleave_eq ex_no_throw addDefaultPage_def)
     (simp add: exEnv_def createObjectURL_def exEmptyA_def)

lemma ex_pageless_inspectPdf:
  "inspectPdf exEnv exEmptyA = Some \<lparr>name = ''blank-a.pdf'', pages = 0, size_info = 1\<rparr>"
  "inspectPdf exEnv exEmptyB = Some \<lparr>name = ''blank-b.pdf'', pages = 0, size_info = 1\<rparr>"
  by (simp_all add: inspectPdf_def readArrayBuffer_def exEnv_def exEmptyA_def exEmptyB_def
        file_size_def)

lemma ex_exPagelessSelected:
  "exPagelessSelected = \<lparr>oddFile = Some exEmptyA, evenFile = Some exEmptyB,
      oddInfo = \<lparr>name = ''blank-a.pdf'', pages = 0, size_info = 1\<rparr>,
      evenInfo = \<lparr>name = ''blank-b.pdf'', pages = 0, size_info = 1\<rparr>,
      status = SelectTwoPdfs, busy = False, downloadUrl = [], resultInfo = emptyInfo\<rparr>"
  by (simp add: exPagelessSelected_def handleEvenChange_def handleOddChange_def
        handleEvenChange_sync_def handleOddChange_sync_def
        handleEvenChange_resume_def handleOddChange_resume_def ex_pageless_inspectPdf
        initial_def)

lemma ex_exFailedA:
  "exFailedA = \<lparr>oddFile = Some exBadFile, evenFile = Some exFileB,
      oddInfo = emptyInfo,
      evenInfo = \<lparr>name = ''notes.pdf'', pages = 2, size_info = 2\<rparr>,
      status = LoadFailedA, busy = False, downloadUrl = [], resultInfo = emptyInfo\<rparr>"
  by (simp add: exFailedA_def ex_exMerged handleOddChange_def handleOddChange_sync_def
        handleOddChange_resume_def ex_inspectPdf)


section \<open>Page order and page count\<close>

text \<open>
  C1, as stated, fails when neither document has a page: the loop appends nothing, the
  alternation is empty, and \<open>output.save()\<close> adds the default page, so the output of the
  successful merge is that one page.
\<close>

theorem merge_page_order_counterexample:
  "loadFile exEnv exEmptyA = Some [] \<and> loadFile exEnv exEmptyB = Some [] \<and>
   mergeTry exEnv exEmptyA exEmptyB =
     Some \<lparr>output_pages = [0], url = ''blob:0'',
           info = \<lparr>name = ''al-blank-a.pdf'', pages = 1, size_info = 1\<rparr>\<rparr> \<and>
   alternation [] [] = ([] :: nat list) \<and>
   [0 :: nat] \<noteq> alternation [] []"
  by (simp add: ex_pageless_loadFile ex_pageless_mergeTry alternation_splice)

text \<open>
  C1 (amended). A successful merge of the documents \<open>A\<close> and \<open>B\<close> loaded from the two
  files, at least one of which has a page, has as its page sequence the alternation by
  index: for each index below the larger page count, page \<open>i\<close> of \<open>A\<close> (if any) and then
  page \<open>i\<close> of \<open>B\<close> (if any). Hence, wherever both documents have a page \<open>k\<close>, output page
  \<open>2k\<close> is page \<open>k\<close> of \<open>A\<close> and output page \<open>2k + 1\<close> is page \<open>k\<close> of \<open>B\<close>; and past the
  alternating prefix the output is exactly the remaining pages of the longer document, in
  their order. When neither document has a page, the output is the one default page that
  \<open>output.save()\<close> adds.
\<close>

theorem merge_page_order:
  assumes "mergeTry env oddF evenF = Some m"
  shows "\<exists>A B. loadFile env oddF = Some A \<and> loadFile env evenF = Some B \<and>
           (0 < length A + length B \<longrightarrow>
              output_pages m = alternation A B \<and>
              (\<forall>k. k < length A \<and> k < length B \<longrightarrow>
                 output_pages m ! (2 * k) = A ! k \<and> output_pages m ! (2 * k + 1) = B ! k) \<and>
              (length B \<le> length A \<longrightarrow>
                 drop (2 * length B) (output_pages m) = drop (length B) A) \<and>
              (length A \<le> length B \<longrightarrow>
                 drop (2 * length A) (output_pages m) = drop (length A) B)) \<and>
           (length A + length B = 0 \<longrightarrow> output_pages m = [defaultPage env])"
proof -
  from assms obtain A B where
    A: "loadFile env oddF = Some A" and B: "loadFile env evenF = Some B" and
    out: "output_pages m = addDefaultPage env (splice A B)"
    by (rule mergeTry_SomeE)
  have pageless: "output_pages m = [defaultPage env]" if "length A + length B = 0"
    using that by (simp add: out addDefaultPage_def)
  have paged: "output_pages m = alternation A B \<and>
      (\<forall>k. k < length A \<and> k < length B \<longrightarrow>
         output_pages m ! (2 * k) = A ! k \<and> output_pages m ! (2 * k + 1) = B ! k) \<and>
      (length B \<le> length A \<longrightarrow> drop (2 * length B) (output_pages m) = drop (length B) A) \<and>
      (length A \<le> length B \<longrightarrow> drop (2 * length A) (output_pages m) = drop (length A) B)"
    if pos: "0 < length A + length B"
  proof -
    from pos have "\<not> (A = [] \<and> B = [])" by auto
    then have sp: "output_pages m = splice A B" by (simp add: out addDefaultPage_splice)
    have "output_pages m = alternation A B" by (simp add: sp alternation_splice)
    moreover have "\<forall>k. k < length A \<and> k < length B \<longrightarrow>
        output_pages m ! (2 * k) = A ! k \<and> output_pages m ! (2 * k + 1) = B ! k"
      unfolding sp using splice_pairs[of _ A B] by blast
    moreover have "length B \<le> length A \<longrightarrow>
        drop (2 * length B) (output_pages m) = drop (length B) A"
      unfolding sp by (simp add: splice_drop_longer_odd)
    moreover have "length A \<le> length B \<longrightarrow>
        drop (2 * length A) (output_pages m) = drop (length A) B"
      unfolding sp by (simp add: splice_drop_longer_even)
    ultimately show ?thesis by blast
  qed
  show ?thesis using A B pageless paged by blast
qed

theorem merge_page_order_witness:
  "mergeTry exEnv exFileA exFileB =
     Some \<lparr>output_pages = [10, 20, 11, 21, 12], url = ''blob:0'',
           info = \<lparr>name = ''al-report.pdf'', pages = 5, size_info = 5\<rparr>\<rparr> \<and>
   0 < length [10, 11, 12 :: nat] + length [20, 21 :: nat] \<and>
   alternation [10, 11, 12] [20, 21 :: nat] = [10, 20, 11, 21, 12] \<and>
   [10, 20, 11, 21, 12] ! (2 * 1) = [10, 11, 12] ! 1 \<and>
   [10, 20, 11, 21, 12] ! (2 * 1 + 1) = [20, 21 :: nat] ! 1 \<and>
   drop (2 * length [20, 21 :: nat]) [10, 20, 11, 21, 12] = drop (length [20, 21 :: nat]) [10, 11, 12 :: nat] \<and>
   mergeTry exEnv exFileB exFileC =
     Some \<lparr>output_pages = [20, 30, 21, 31], url = ''blob:0'',
           info = \<lparr>name = ''al-notes.pdf'', pages = 4, size_info = 4\<rparr>\<rparr> \<and>
   alternation [20, 21] [30, 31 :: nat] = [20, 30, 21, 31] \<and>
   drop (2 * length [20, 21 :: nat]) [20, 30, 21, 31] = drop (length [20, 21 :: nat]) [30, 31 :: nat] \<and>
   mergeTry exEnv exEmptyA exEmptyB =
     Some \<lparr>output_pages = [0], url = ''blob:0'',
           info = \<lparr>name = ''al-blank-a.pdf'', pages = 1, size_info = 1\<rparr>\<rparr> \<and>
   length ([] :: nat list) + length ([] :: nat list) = 0 \<and>
   [0] = [defaultPage exEnv]"
proof -
  have h1: "mergeTry exEnv exFileA exFileB =
     Some \<lparr>output_pages = [10, 20, 11, 21, 12], url = ''blob:0'',
           info = \<lparr>name = ''al-report.pdf'', pages = 5, size_info = 5\<rparr>\<rparr>"
    by (rule ex_mergeTry)
  have h2: "mergeTry exEnv exFileB exFileC =
     Some \<lparr>output_pages = [20, 30, 21, 31], url = ''blob:0'',
           info = \<lparr>name = ''al-notes.pdf'', pages = 4, size_info = 4\<rparr>\<rparr>"
    by (rule ex_mergeTry)
  have h3: "mergeTry exEnv exEmptyA exEmptyB =
     Some \<lparr>output_pages = [0], url = ''blob:0'',
           info = \<lparr>name = ''al-blank-a.pdf'', pages = 1, size_info = 1\<rparr>\<rparr>"
    by (rule ex_pageless_mergeTry)
  from merge_page_order[OF h1] have c1:
    "alternation [10, 11, 12] [20, 21 :: nat] = [10, 20, 11, 21, 12]"
    by (simp add: ex_loadFile)
  from merge_page_order[OF h2] have c2:
    "alternation [20, 21] [30, 31 :: nat] = [20, 30, 21, 31]"
    by (simp add: ex_loadFile)
  from merge_page_order[OF h3] have c3: "[0] = [defaultPage exEnv]"
    by (simp add: ex_pageless_loadFile)
  show ?thesis using h1 h2 h3 c1 c2 c3 by simp
qed

text \<open>
  C2, as stated, fails when neither document has a page: \<open>a + b = 0\<close>, but the saved
  artifact holds the default page, and \<open>output.getPageCount()\<close>, read after
  \<open>output.save()\<close>, reports 1.
\<close>

theorem merge_page_count_counterexample:
  "oddFile exPagelessSelected = Some exEmptyA \<and>
   evenFile exPagelessSelected = Some exEmptyB \<and>
   loadFile exEnv exEmptyA = Some [] \<and> loadFile exEnv exEmptyB = Some [] \<and>
   pages (oddInfo exPagelessSelected) = 0 \<and> pages (evenInfo exPagelessSelected) = 0 \<and>
   status (clickMerge exEnv exPagelessSelected) = Done \<and>
   resultInfo (clickMerge exEnv exPagelessSelected) =
     \<lparr>name = ''al-blank-a.pdf'', pages = 1, size_info = 1\<rparr>"
  by (simp add: ex_pageless_loadFile)
     (simp add: ex_exPagelessSelected clickMerge_def canMerge_def mergePdfs_def
        mergePdfs_sync_def mergePdfs_resume_def ex_pageless_mergeTry)

text \<open>
  C2 (amended). A successful merge of \<open>A\<close> (\<open>a\<close> pages) and \<open>B\<close> (\<open>b\<close> pages), at least one
  of which has a page, has \<open>a + b\<close> pages: the output holds every page of both documents
  exactly once. When neither has a page, the output is the one default page and the count
  is 1. In both cases the metadata that \<open>setResultInfo\<close> receives carries the page count
  of the output.
\<close>

theorem merge_page_count:
  assumes "oddFile s = Some oddF" and "evenFile s = Some evenF"
    and "mergeTry env oddF evenF = Some m"
  shows "\<exists>A B. loadFile env oddF = Some A \<and> loadFile env evenF = Some B \<and>
           (0 < length A + length B \<longrightarrow>
              length (output_pages m) = length A + length B \<and>
              mset (output_pages m) = mset A + mset B) \<and>
           (length A + length B = 0 \<longrightarrow>
              output_pages m = [defaultPage env] \<and> length (output_pages m) = 1) \<and>
           pages (info m) = length (output_pages m) \<and>
           resultInfo (mergePdfs env s) = info m \<and>
           pages (resultInfo (mergePdfs env s)) = max 1 (length A + length B) \<and>
           status (mergePdfs env s) = Done"
proof -
  from assms(3) obtain A B where
    A: "loadFile env oddF = Some A" and B: "loadFile env evenF = Some B" and
    out: "output_pages m = addDefaultPage env (splice A B)" and
    pg: "pages (info m) = length (output_pages m)"
    by (rule mergeTry_SomeE)
  have paged: "length (output_pages m) = length A + length B \<and>
      mset (output_pages m) = mset A + mset B" if pos: "0 < length A + length B"
  proof -
    from pos have "\<not> (A = [] \<and> B = [])" by auto
    then have sp: "output_pages m = splice A B" by (simp add: out addDefaultPage_splice)
    show ?thesis by (simp add: sp mset_splice_union)
  qed
  have pageless: "output_pages m = [defaultPage env] \<and> length (output_pages m) = 1"
    if "length A + length B = 0"
    using that by (simp add: out addDefaultPage_def)
  have len: "length (output_pages m) = max 1 (length A + length B)"
  proof (cases "0 < length A + length B")
    case True
    then have "length (output_pages m) = length A + length B" using paged by blast
    moreover have "max 1 (length A + length B) = length A + length B" using True by linarith
    ultimately show ?thesis by (simp only:)
  next
    case False
    then have z: "length A + length B = 0" by simp
    then have "length (output_pages m) = 1" using pageless by blast
    then show ?thesis by (simp add: z)
  qed
  have st: "resultInfo (mergePdfs env s) = info m \<and> status (mergePdfs env s) = Done"
    using assms by (simp add: mergePdfs_def mergePdfs_resume_def mergePdfs_sync_def)
  show ?thesis using A B paged pageless pg len st by auto
qed

theorem merge_page_count_witness:
  "oddFile exSelected = Some exFileA \<and> evenFile exSelected = Some exFileB \<and>
   mergeTry exEnv exFileA exFileB =
     Some \<lparr>output_pages = [10, 20, 11, 21, 12], url = ''blob:0'',
           info = \<lparr>name = ''al-report.pdf'', pages = 5, size_info = 5\<rparr>\<rparr> \<and>
   loadFile exEnv exFileA = Some [10, 11, 12] \<and> loadFile exEnv exFileB = Some [20, 21] \<and>
   0 < length [10, 11, 12 :: nat] + length [20, 21 :: nat] \<and>
   pages (resultInfo (mergePdfs exEnv exSelected)) = length [10, 11, 12 :: nat] + length [20, 21 :: nat] \<and>
   status (mergePdfs exEnv exSelected) = Done \<and>
   oddFile exPagelessSelected = Some exEmptyA \<and> evenFile exPagelessSelected = Some exEmptyB \<and>
   mergeTry exEnv exEmptyA exEmptyB =
     Some \<lparr>output_pages = [0], url = ''blob:0'',
           info = \<lparr>name = ''al-blank-a.pdf'', pages = 1, size_info = 1\<rparr>\<rparr> \<and>
   loadFile exEnv exEmptyA = Some [] \<and> loadFile exEnv exEmptyB = Some [] \<and>
   length ([] :: nat list) + length ([] :: nat list) = 0 \<and>
   pages (resultInfo (mergePdfs exEnv exPagelessSelected)) = 1"
proof -
  have h1: "oddFile exSelected = Some exFileA" and h2: "evenFile exSelected = Some exFileB"
    by (simp_all add: ex_exSelected)
  have h3: "mergeTry exEnv exFileA exFileB =
     Some \<lparr>output_pages = [10, 20, 11, 21, 12], url = ''blob:0'',
           info = \<lparr>name = ''al-report.pdf'', pages = 5, size_info = 5\<rparr>\<rparr>"
    by (rule ex_mergeTry)
  have k1: "oddFile exPagelessSelected = Some exEmptyA"
    and k2: "evenFile exPagelessSelected = Some exEmptyB"
    by (simp_all add: ex_exPagelessSelected)
  have k3: "mergeTry exEnv exEmptyA exEmptyB =
     Some \<lparr>output_pages = [0], url = ''blob:0'',
           info = \<lparr>name = ''al-blank-a.pdf'', pages = 1, size_info = 1\<rparr>\<rparr>"
    by (rule ex_pageless_mergeTry)
  from merge_page_count[OF h1 h2 h3] have w1:
    "pages (resultInfo (mergePdfs exEnv exSelected)) = 5 \<and>
     status (mergePdfs exEnv exSelected) = Done"
    by (simp add: ex_loadFile)
  from merge_page_count[OF k1 k2 k3] have w2:
    "pages (resultInfo (mergePdfs exEnv exPagelessSelected)) = 1"
    by (simp add: ex_pageless_loadFile)
  show ?thesis
    using h1 h2 h3 k1 k2 k3 w1 w2 by (simp add: ex_loadFile ex_pageless_loadFile)
qed

section \<open>The output name\<close>

text \<open>
  C6, as stated, fails on the "exactly when": a file named \<open>interleaved.pdf\<close> has a name
  that is not empty, and the output name is the literal \<open>al-interleaved.pdf\<close> all the
  same.
\<close>

theorem merged_name_counterexample:
  "mergeTry exEnv exFileI exFileB =
     Some \<lparr>output_pages = [40, 20, 21], url = ''blob:0'',
           info = \<lparr>name = ''al-interleaved.pdf'', pages = 3, size_info = 3\<rparr>\<rparr> \<and>
   file_name exFileI = ''interleaved.pdf'' \<and> file_name exFileI \<noteq> []"
  by (simp add: ex_mergeTry) (simp add: exFileI_def)

text \<open>
  C6 (amended). The output name of a successful merge is \<open>al-\<close> followed by the file
  name of source A when that name is not empty, and the literal \<open>al-interleaved.pdf\<close>
  when it is empty; the literal results exactly when the name of A is empty or is itself
  \<open>interleaved.pdf\<close>. The name is the same whatever file is in slot B.
\<close>

theorem merged_name:
  assumes "mergeTry env oddF evenF = Some m"
  shows "name (info m) =
           (if file_name oddF = [] then ''al-interleaved.pdf'' else ''al-'' @ file_name oddF) \<and>
         (name (info m) = ''al-interleaved.pdf'' \<longleftrightarrow>
            file_name oddF = [] \<or> file_name oddF = ''interleaved.pdf'') \<and>
         (\<forall>evenF' m'. mergeTry env oddF evenF' = Some m' \<longrightarrow> name (info m') = name (info m))"
proof -
  have nm: "name (info m') =
      ''al-'' @ (if file_name oddF \<noteq> [] then file_name oddF else ''interleaved.pdf'')"
    if "mergeTry env oddF evenF' = Some m'" for evenF' m'
    using that by (rule mergeTry_SomeE)
  show ?thesis using nm[OF assms] nm by auto
qed

theorem merged_name_witness:
  "mergeTry exEnv exFileA exFileB =
     Some \<lparr>output_pages = [10, 20, 11, 21, 12], url = ''blob:0'',
           info = \<lparr>name = ''al-report.pdf'', pages = 5, size_info = 5\<rparr>\<rparr> \<and>
   file_name exFileA = ''report.pdf'' \<and>
   mergeTry exEnv exFileC exFileB =
     Some \<lparr>output_pages = [30, 20, 31, 21], url = ''blob:0'',
           info = \<lparr>name = ''al-interleaved.pdf'', pages = 4, size_info = 4\<rparr>\<rparr> \<and>
   file_name exFileC = []"
proof -
  have h1: "mergeTry exEnv exFileA exFileB =
     Some \<lparr>output_pages = [10, 20, 11, 21, 12], url = ''blob:0'',
           info = \<lparr>name = ''al-report.pdf'', pages = 5, size_info = 5\<rparr>\<rparr>"
    by (rule ex_mergeTry)
  have h2: "mergeTry exEnv exFileC exFileB =
     Some \<lparr>output_pages = [30, 20, 31, 21], url = ''blob:0'',
           info = \<lparr>name = ''al-interleaved.pdf'', pages = 4, size_info = 4\<rparr>\<rparr>"
    by (rule ex_mergeTry)
  from merged_name[OF h1] have "file_name exFileA = ''report.pdf''"
    by (simp split: if_splits)
  moreover from merged_name[OF h2] have "file_name exFileC = []"
    by (simp add: exFileC_def)
  ultimately show ?thesis using h1 h2 by simp
qed


section \<open>Load failures\<close>

lemma inspectPdf_None: "inspectPdf env file = None \<longleftrightarrow> loadFile env file = None"
  by (simp add: inspectPdf_def loadFile_def split: option.splits)

lemma status_text_slot: "status_text LoadFailedA \<noteq> status_text LoadFailedB"
  by simp

lemma handleOddChange_failed:
  assumes "inspectPdf env file = None"
  shows "handleOddChange env (Some file) s =
           s\<lparr>oddFile := Some file, downloadUrl := [], resultInfo := emptyInfo,
             status := LoadFailedA, oddInfo := emptyInfo\<rparr>"
  using assms
  by (simp add: handleOddChange_def handleOddChange_sync_def handleOddChange_resume_def)

lemma handleEvenChange_failed:
  assumes "inspectPdf env file = None"
  shows "handleEvenChange env (Some file) s =
           s\<lparr>evenFile := Some file, downloadUrl := [], resultInfo := emptyInfo,
             status := LoadFailedB, evenInfo := emptyInfo\<rparr>"
  using assms
  by (simp add: handleEvenChange_def handleEvenChange_sync_def handleEvenChange_resume_def)

lemma emptyInfo_pages: "pages emptyInfo = 0"
  by (simp add: emptyInfo_def)

text \<open>
  C7. When the load of the file chosen for slot A fails, the file and the metadata of
  slot B are unchanged, the metadata of slot A is the empty one, the status is the
  message for slot A, and no artifact is shown: the download URL is empty and the result
  metadata is the empty one. The same holds with the slots exchanged, and the two
  messages differ.
\<close>

theorem load_failure_isolated:
  assumes "inspectPdf env file = None"
  shows "evenFile (handleOddChange env (Some file) s) = evenFile s \<and>
         evenInfo (handleOddChange env (Some file) s) = evenInfo s \<and>
         oddInfo (handleOddChange env (Some file) s) = emptyInfo \<and>
         status (handleOddChange env (Some file) s) = LoadFailedA \<and>
         downloadUrl (handleOddChange env (Some file) s) = [] \<and>
         resultInfo (handleOddChange env (Some file) s) = emptyInfo \<and>
         \<not> downloadEnabled (handleOddChange env (Some file) s) \<and>
         resultShown (handleOddChange env (Some file) s) = None \<and>
         oddFile (handleEvenChange env (Some file) s) = oddFile s \<and>
         oddInfo (handleEvenChange env (Some file) s) = oddInfo s \<and>
         evenInfo (handleEvenChange env (Some file) s) = emptyInfo \<and>
         status (handleEvenChange env (Some file) s) = LoadFailedB \<and>
         downloadUrl (handleEvenChange env (Some file) s) = [] \<and>
         resultInfo (handleEvenChange env (Some file) s) = emptyInfo \<and>
         \<not> downloadEnabled (handleEvenChange env (Some file) s) \<and>
         resultShown (handleEvenChange env (Some file) s) = None \<and>
         status_text LoadFailedA \<noteq> status_text LoadFailedB"
  unfolding handleOddChange_failed[OF assms] handleEvenChange_failed[OF assms]
  by (simp add: downloadEnabled_def resultShown_def emptyInfo_pages)

theorem load_failure_isolated_witness:
  "inspectPdf exEnv exBadFile = None \<and>
   downloadUrl exMerged = ''blob:0'' \<and>
   resultInfo exMerged = \<lparr>name = ''al-report.pdf'', pages = 5, size_info = 5\<rparr> \<and>
   evenFile (handleOddChange exEnv (Some exBadFile) exMerged) = Some exFileB \<and>
   evenInfo (handleOddChange exEnv (Some exBadFile) exMerged) =
     \<lparr>name = ''notes.pdf'', pages = 2, size_info = 2\<rparr> \<and>
   oddInfo (handleOddChange exEnv (Some exBadFile) exMerged) = emptyInfo \<and>
   status (handleOddChange exEnv (Some exBadFile) exMerged) = LoadFailedA \<and>
   downloadUrl (handleOddChange exEnv (Some exBadFile) exMerged) = [] \<and>
   resultInfo (handleOddChange exEnv (Some exBadFile) exMerged) = emptyInfo \<and>
   oddFile (handleEvenChange exEnv (Some exBadFile) exMerged) = Some exFileA \<and>
   status (handleEvenChange exEnv (Some exBadFile) exMerged) = LoadFailedB \<and>
   resultInfo (handleEvenChange exEnv (Some exBadFile) exMerged) = emptyInfo"
proof -
  have h: "inspectPdf exEnv exBadFile = None" by (rule ex_inspectPdf)
  have e: "evenFile exMerged = Some exFileB" "oddFile exMerged = Some exFileA"
    "evenInfo exMerged = \<lparr>name = ''notes.pdf'', pages = 2, size_info = 2\<rparr>"
    "downloadUrl exMerged = ''blob:0''"
    "resultInfo exMerged = \<lparr>name = ''al-report.pdf'', pages = 5, size_info = 5\<rparr>"
    by (simp_all add: ex_exMerged)
  from load_failure_isolated[OF h, of exMerged] show ?thesis
    using h e by simp
qed

text \<open>
  C3, as stated, fails: after a first merge, a file that does not parse is chosen for
  slot A. The slot still holds that file, the button is enabled, and a click is not a
  no-op: the merge runs and ends in the generic failure status.
\<close>

theorem failed_slot_counterexample:
  "inspectPdf exEnv exBadFile = None \<and>
   exFailedA = handleOddChange exEnv (Some exBadFile) exMerged \<and>
   oddFile exFailedA = Some exBadFile \<and>
   canMerge exFailedA \<and>
   clickMerge exEnv exFailedA \<noteq> exFailedA \<and>
   status exFailedA = LoadFailedA \<and>
   status (clickMerge exEnv exFailedA) = MergeFailed"
  by (simp add: ex_inspectPdf exFailedA_def[symmetric])
     (simp add: ex_exFailedA clickMerge_def canMerge_def mergePdfs_def mergePdfs_sync_def
        mergePdfs_resume_def ex_mergeTry_None)

lemma mergeTry_load_fails:
  "loadFile env oddF = None \<or> loadFile env evenF = None \<Longrightarrow> mergeTry env oddF evenF = None"
  unfolding mergeTry_None by blast

text \<open>
  C3 (amended). A slot whose file failed to load still holds the file; only its metadata
  is reset. The merge button is then enabled exactly when the other slot holds a file and
  no merge is running. When the file fails to load again as the merge runs, the merge ends
  in the generic failure status; and whether or not the click is taken, no output is
  produced: the download URL is empty and the result metadata is the empty one.
\<close>

theorem failed_slot_merge_attempt:
  assumes "inspectPdf env file = None" and "loadFile env' file = None"
  shows "oddFile (handleOddChange env (Some file) s) = Some file \<and>
         canMerge (handleOddChange env (Some file) s) = (evenFile s \<noteq> None \<and> \<not> busy s) \<and>
         (canMerge (handleOddChange env (Some file) s) \<longrightarrow>
            status (clickMerge env' (handleOddChange env (Some file) s)) = MergeFailed) \<and>
         downloadUrl (clickMerge env' (handleOddChange env (Some file) s)) = [] \<and>
         resultInfo (clickMerge env' (handleOddChange env (Some file) s)) = emptyInfo \<and>
         evenFile (handleEvenChange env (Some file) s) = Some file \<and>
         canMerge (handleEvenChange env (Some file) s) = (oddFile s \<noteq> None \<and> \<not> busy s) \<and>
         (canMerge (handleEvenChange env (Some file) s) \<longrightarrow>
            status (clickMerge env' (handleEvenChange env (Some file) s)) = MergeFailed) \<and>
         downloadUrl (clickMerge env' (handleEvenChange env (Some file) s)) = [] \<and>
         resultInfo (clickMerge env' (handleEvenChange env (Some file) s)) = emptyInfo"
  unfolding handleOddChange_failed[OF assms(1)] handleEvenChange_failed[OF assms(1)]
  using assms(2)
  by (auto simp: canMerge_def clickMerge_def mergePdfs_def mergePdfs_sync_def
        mergePdfs_resume_def mergeTry_load_fails split: option.splits)

theorem failed_slot_merge_attempt_witness:
  "inspectPdf exEnv exBadFile = None \<and> loadFile exEnv exBadFile = None \<and>
   oddFile (handleOddChange exEnv (Some exBadFile) exMerged) = Some exBadFile \<and>
   canMerge (handleOddChange exEnv (Some exBadFile) exMerged) \<and>
   status (clickMerge exEnv (handleOddChange exEnv (Some exBadFile) exMerged)) = MergeFailed \<and>
   downloadUrl (clickMerge exEnv (handleOddChange exEnv (Some exBadFile) exMerged)) = [] \<and>
   resultInfo (clickMerge exEnv (handleOddChange exEnv (Some exBadFile) exMerged)) = emptyInfo \<and>
   canMerge (handleEvenChange exEnv (Some exBadFile) exMerged) \<and>
   status (clickMerge exEnv (handleEvenChange exEnv (Some exBadFile) exMerged)) = MergeFailed"
proof -
  have h1: "inspectPdf exEnv exBadFile = None" by (rule ex_inspectPdf)
  have h2: "loadFile exEnv exBadFile = None" by (rule ex_loadFile)
  have e: "evenFile exMerged \<noteq> None" "oddFile exMerged \<noteq> None" "\<not> busy exMerged"
    by (simp_all add: ex_exMerged)
  from failed_slot_merge_attempt[OF h1 h2, of exMerged] show ?thesis
    using h1 h2 e by simp
qed

section \<open>Clearing the artifact\<close>

lemma source_change_clears_artifact:
  "downloadUrl (handleOddChange_sync file s) = [] \<and>
   resultInfo (handleOddChange_sync file s) = emptyInfo \<and>
   downloadUrl (handleEvenChange_sync file s) = [] \<and>
   resultInfo (handleEvenChange_sync file s) = emptyInfo \<and>
   downloadUrl (handleOddChange env file s) = [] \<and>
   resultInfo (handleOddChange env file s) = emptyInfo \<and>
   downloadUrl (handleEvenChange env file s) = [] \<and>
   resultInfo (handleEvenChange env file s) = emptyInfo"
  by (simp add: handleOddChange_def handleOddChange_sync_def handleOddChange_resume_def
        handleEvenChange_def handleEvenChange_sync_def handleEvenChange_resume_def
        split: option.splits)

lemma merge_failure_effect:
  assumes "oddFile s = Some oddF" and "evenFile s = Some evenF"
    and "mergeTry env oddF evenF = None"
  shows "mergePdfs env s = s\<lparr>status := MergeFailed, busy := False, downloadUrl := []\<rparr>"
  using assms by (simp add: mergePdfs_def mergePdfs_sync_def mergePdfs_resume_def)

text \<open>
  C4. The code at a failing merge that follows a successful one: the two files are merged
  once, then merged again with a \<open>save\<close> that rejects. The failed merge clears the download
  URL and shows the generic failure status, but the result metadata of the first merge is
  still in \<open>resultInfo\<close> and is still rendered.
\<close>

theorem merge_failure_keeps_result_info:
  "exRemergeFailed = clickMerge exEnvSaveFails exMerged \<and>
   mergeTry exEnvSaveFails exFileA exFileB = None \<and>
   resultInfo exMerged = \<lparr>name = ''al-report.pdf'', pages = 5, size_info = 5\<rparr> \<and>
   status exRemergeFailed = MergeFailed \<and>
   downloadUrl exRemergeFailed = [] \<and>
   resultInfo exRemergeFailed = \<lparr>name = ''al-report.pdf'', pages = 5, size_info = 5\<rparr> \<and>
   resultInfo exRemergeFailed \<noteq> emptyInfo \<and>
   resultShown exRemergeFailed = Some \<lparr>name = ''al-report.pdf'', pages = 5, size_info = 5\<rparr>"
  by (simp add: exRemergeFailed_def[symmetric] ex_mergeTry_None)
     (simp add: ex_exRemergeFailed ex_exMerged resultShown_def emptyInfo_def)

text \<open>
  C8. The code at a new merge request: in the state after a first merge, \<open>mergePdfs\<close> up
  to its first \<open>await\<close> clears the download URL and leaves \<open>resultInfo\<close> as it was, so the
  result metadata of the first merge stays rendered while the second one runs.
\<close>

theorem merge_request_keeps_result_info:
  "canMerge exMerged \<and>
   downloadUrl (mergePdfs_sync exMerged) = [] \<and>
   resultInfo (mergePdfs_sync exMerged) = \<lparr>name = ''al-report.pdf'', pages = 5, size_info = 5\<rparr> \<and>
   resultInfo (mergePdfs_sync exMerged) \<noteq> emptyInfo \<and>
   resultShown (mergePdfs_sync exMerged) =
     Some \<lparr>name = ''al-report.pdf'', pages = 5, size_info = 5\<rparr>"
  by (simp add: ex_exMerged canMerge_def mergePdfs_sync_def resultShown_def emptyInfo_def)


section \<open>Exclusive merge and the busy flag\<close>

lemma busy_handleOddChange: "busy (handleOddChange env file s) = busy s"
  by (simp add: handleOddChange_def handleOddChange_sync_def handleOddChange_resume_def
        split: option.splits)

lemma busy_handleEvenChange: "busy (handleEvenChange env file s) = busy s"
  by (simp add: handleEvenChange_def handleEvenChange_sync_def handleEvenChange_resume_def
        split: option.splits)

lemma busy_mergePdfs_resume: "\<not> busy (mergePdfs_resume env oddF evenF s)"
  by (simp add: mergePdfs_resume_def split: option.splits)

lemma inFlightOk_step: "inFlightOk c \<Longrightarrow> inFlightOk (step e c)"
proof (cases c)
  case (Pair s running)
  assume ok: "inFlightOk c"
  show ?thesis
  proof (cases e)
    case Click
    then show ?thesis using ok Pair
      by (auto simp: inFlightOk_def canMerge_def mergePdfs_sync_def split: option.splits)
  next
    case (Settle env)
    then show ?thesis using ok Pair
      by (cases running) (auto simp: inFlightOk_def busy_mergePdfs_resume)
  next
    case (OddChange env f)
    then show ?thesis using ok Pair by (simp add: inFlightOk_def busy_handleOddChange)
  next
    case (EvenChange env f)
    then show ?thesis using ok Pair by (simp add: inFlightOk_def busy_handleEvenChange)
  qed
qed

lemma inFlightOk_run: "inFlightOk (run events)"
proof (induction events rule: rev_induct)
  case Nil
  then show ?case by (simp add: run_def inFlightOk_def initial_def)
next
  case (snoc e events)
  then show ?case by (simp add: run_def inFlightOk_step)
qed

text \<open>
  C5. In every state the component can reach, at most one merge is running, and \<open>busy\<close>
  holds exactly while one runs. While one runs the button is disabled and a click changes
  nothing: no second merge starts and none is queued. When the running merge settles,
  whatever its outcome, no merge is running and \<open>busy\<close> is false.
\<close>

theorem merge_exclusive:
  fixes events :: "'p Event list" and env :: "'p Env"
  shows "length (snd (run events)) \<le> 1 \<and>
         (busy (fst (run events)) \<longleftrightarrow> snd (run events) \<noteq> []) \<and>
         (snd (run events) \<noteq> [] \<longrightarrow>
            \<not> canMerge (fst (run events)) \<and>
            step (Click :: 'p Event) (run events) = run events \<and>
            snd (step (Settle env) (run events)) = [] \<and>
            \<not> busy (fst (step (Settle env) (run events))))"
proof -
  obtain s running where c: "run events = (s, running)" by (cases "run events")
  have ok: "inFlightOk (s, running)" using inFlightOk_run[of events] c by simp
  then have len: "length running \<le> 1" and b: "busy s \<longleftrightarrow> running \<noteq> []"
    by (simp_all add: inFlightOk_def)
  have "\<not> canMerge s \<and> step (Click :: 'p Event) (s, running) = (s, running) \<and>
        snd (step (Settle env) (s, running)) = [] \<and>
        \<not> busy (fst (step (Settle env) (s, running)))" if r: "running \<noteq> []"
  proof -
    from r b have "busy s" by simp
    then have nc: "\<not> canMerge s" by (simp add: canMerge_def)
    from r len obtain oddF evenF where "running = [(oddF, evenF)]"
      by (cases running) auto
    then show ?thesis using nc by (simp add: busy_mergePdfs_resume)
  qed
  then show ?thesis using len b c by simp
qed

theorem merge_exclusive_witness:
  "run [OddChange exEnv (Some exFileA), EvenChange exEnv (Some exFileB), Click]
     = (mergePdfs_sync exSelected, [(exFileA, exFileB)]) \<and>
   snd (run [OddChange exEnv (Some exFileA), EvenChange exEnv (Some exFileB), Click]) \<noteq> [] \<and>
   busy (mergePdfs_sync exSelected) \<and>
   step (Click :: nat Event) (mergePdfs_sync exSelected, [(exFileA, exFileB)])
     = (mergePdfs_sync exSelected, [(exFileA, exFileB)]) \<and>
   step (Settle exEnv) (mergePdfs_sync exSelected, [(exFileA, exFileB)])
     = (exMerged, [])"
proof -
  let ?es = "[OddChange exEnv (Some exFileA), EvenChange exEnv (Some exFileB), Click]"
  have sel: "handleEvenChange exEnv (Some exFileB) (handleOddChange exEnv (Some exFileA) initial)
      = exSelected" by (simp add: exSelected_def)
  have can: "canMerge exSelected" by (simp add: ex_exSelected canMerge_def)
  have files: "oddFile exSelected = Some exFileA" "evenFile exSelected = Some exFileB"
    by (simp_all add: ex_exSelected)
  have r: "run ?es = (mergePdfs_sync exSelected, [(exFileA, exFileB)])"
    by (simp add: run_def sel can files)
  have m: "mergePdfs_resume exEnv exFileA exFileB (mergePdfs_sync exSelected) = exMerged"
    by (simp add: exMerged_def clickMerge_def can mergePdfs_def files)
  from merge_exclusive[of ?es exEnv] show ?thesis
    unfolding r using m by simp
qed


text \<open>
  C10. A merge that the button starts sets \<open>busy\<close>; the rest of \<open>mergePdfs\<close>, on success
  and on failure alike, ends with \<open>busy\<close> false. So whenever both files are present a
  complete run of \<open>mergePdfs\<close> leaves \<open>busy\<close> false, and after a run started by the button
  the status is "done" or "merge failed" and \<open>canMerge\<close> holds again.
\<close>

theorem busy_reset:
  "(canMerge s \<longrightarrow> busy (mergePdfs_sync s)) \<and>
   \<not> busy (mergePdfs_resume env oddF evenF s') \<and>
   (oddFile s \<noteq> None \<and> evenFile s \<noteq> None \<longrightarrow> \<not> busy (mergePdfs env s)) \<and>
   (canMerge s \<longrightarrow> \<not> busy (clickMerge env s) \<and> canMerge (clickMerge env s) \<and>
      (status (clickMerge env s) = Done \<or> status (clickMerge env s) = MergeFailed))"
  by (auto simp: canMerge_def clickMerge_def mergePdfs_def mergePdfs_sync_def
        mergePdfs_resume_def split: option.splits)

theorem busy_reset_witness:
  "canMerge exSelected \<and> busy (mergePdfs_sync exSelected) \<and>
   \<not> busy (clickMerge exEnv exSelected) \<and> canMerge (clickMerge exEnv exSelected) \<and>
   status (clickMerge exEnv exSelected) = Done \<and>
   canMerge exMerged \<and> \<not> busy (clickMerge exEnvSaveFails exMerged) \<and>
   canMerge (clickMerge exEnvSaveFails exMerged) \<and>
   status (clickMerge exEnvSaveFails exMerged) = MergeFailed"
proof -
  have c1: "canMerge exSelected" by (simp add: ex_exSelected canMerge_def)
  have c2: "canMerge exMerged" by (simp add: ex_exMerged canMerge_def)
  have s1: "status (clickMerge exEnv exSelected) = Done"
    unfolding exMerged_def[symmetric] by (simp add: ex_exMerged)
  have s2: "status (clickMerge exEnvSaveFails exMerged) = MergeFailed"
    unfolding exRemergeFailed_def[symmetric] by (simp add: ex_exRemergeFailed)
  show ?thesis
    using busy_reset[of exSelected exEnv exFileA exFileB exSelected]
      busy_reset[of exMerged exEnvSaveFails exFileA exFileB exMerged] c1 c2 s1 s2
    by simp
qed


text \<open>
  A merge that settles after a source has changed still publishes its artifact: the
  handlers clear the artifact when they run, not when a merge started earlier ends.
\<close>

lemma settle_after_source_change:
  "run [OddChange exEnv (Some exFileA), EvenChange exEnv (Some exFileB), Click,
        OddChange exEnv (Some exFileC), Settle exEnv]
     = (exMerged\<lparr>oddFile := Some exFileC,
                 oddInfo := \<lparr>name = [], pages = 2, size_info = 2\<rparr>\<rparr>, [])"
proof -
  have sel: "handleEvenChange exEnv (Some exFileB) (handleOddChange exEnv (Some exFileA) initial)
      = exSelected" by (simp add: exSelected_def)
  have can: "canMerge exSelected" by (simp add: ex_exSelected canMerge_def)
  have files: "oddFile exSelected = Some exFileA" "evenFile exSelected = Some exFileB"
    by (simp_all add: ex_exSelected)
  have ic: "inspectPdf exEnv exFileC = Some \<lparr>name = [], pages = 2, size_info = 2\<rparr>"
    by (simp add: inspectPdf_def readArrayBuffer_def exEnv_def exFileC_def file_size_def)
  show ?thesis
    by (simp add: run_def sel can files)
       (simp add: ex_exMerged ex_exSelected mergePdfs_sync_def mergePdfs_resume_def ex_mergeTry
          handleOddChange_def handleOddChange_sync_def handleOddChange_resume_def ic)
qed

section \<open>Byte sizes\<close>

lemma formatBytes_loop_stop: "v < 1024 \<Longrightarrow> formatBytes_loop v idx = (v, idx)"
  by (subst formatBytes_loop.simps) simp

lemma formatBytes_loop_last: "formatBytes_loop v 3 = (v, 3)"
  by (subst formatBytes_loop.simps) (simp add: units_def)

lemma formatBytes_loop_go:
  assumes "1024 \<le> v"
  shows "formatBytes_loop v 0 = formatBytes_loop (v / 1024) 1"
    and "formatBytes_loop v 1 = formatBytes_loop (v / 1024) 2"
    and "formatBytes_loop v 2 = formatBytes_loop (v / 1024) 3"
  using assms by (subst formatBytes_loop.simps, simp add: units_def)+

lemma formatBytes_loop_closed:
  "formatBytes_loop (of_nat b) 0 = (of_nat b / 1024 ^ divisions b, divisions b)"
proof -
  let ?v = "of_nat b :: rat"
  have le0: "(1024 \<le> ?v) = (1024 \<le> b)"
    by (metis of_nat_le_iff of_nat_numeral)
  have le1: "(1024 \<le> ?v / 1024) = (1024 ^ 2 \<le> b)"
  proof -
    have "(1024 \<le> ?v / 1024) = (of_nat (1024 ^ 2) \<le> ?v)" by (simp add: le_divide_eq)
    then show ?thesis by (simp only: of_nat_le_iff)
  qed
  have le2: "(1024 \<le> ?v / 1024 / 1024) = (1024 ^ 3 \<le> b)"
  proof -
    have "(1024 \<le> ?v / 1024 / 1024) = (of_nat (1024 ^ 3) \<le> ?v)" by (simp add: le_divide_eq)
    then show ?thesis by (simp only: of_nat_le_iff)
  qed
  consider "b < 1024" | "1024 \<le> b" "b < 1024 ^ 2" | "1024 ^ 2 \<le> b" "b < 1024 ^ 3" | "1024 ^ 3 \<le> b"
    by linarith
  then show ?thesis
  proof cases
    case 1
    then have "?v < 1024" using le0 by simp
    then show ?thesis using 1 by (simp add: formatBytes_loop_stop divisions_def)
  next
    case 2
    then have g0: "1024 \<le> ?v" and s1: "?v / 1024 < 1024" using le0 le1 by simp_all
    have "formatBytes_loop ?v 0 = (?v / 1024, 1)"
      by (simp only: formatBytes_loop_go(1)[OF g0] formatBytes_loop_stop[OF s1])
    then show ?thesis using 2 by (simp add: divisions_def)
  next
    case 3
    then have b0: "1024 \<le> b" by simp
    have g0: "1024 \<le> ?v" and g1: "1024 \<le> ?v / 1024" and s2: "?v / 1024 / 1024 < 1024"
      using 3 b0 le0 le1 le2 by simp_all
    have "formatBytes_loop ?v 0 = (?v / 1024 / 1024, 2)"
      by (simp only: formatBytes_loop_go(1)[OF g0] formatBytes_loop_go(2)[OF g1]
            formatBytes_loop_stop[OF s2])
    then show ?thesis using 3 b0 by (simp add: divisions_def)
  next
    case 4
    then have b0: "1024 \<le> b" and b1: "1024 ^ 2 \<le> b" by simp_all
    have g0: "1024 \<le> ?v" and g1: "1024 \<le> ?v / 1024" and g2: "1024 \<le> ?v / 1024 / 1024"
      using 4 b0 b1 le0 le1 le2 by simp_all
    have "formatBytes_loop ?v 0 = (?v / 1024 / 1024 / 1024, 3)"
      by (simp only: formatBytes_loop_go(1)[OF g0] formatBytes_loop_go(2)[OF g1]
            formatBytes_loop_go(3)[OF g2] formatBytes_loop_last)
    then show ?thesis using 4 b0 b1 by (simp add: divisions_def)
  qed
qed

lemma digit_not_point: "d < 10 \<Longrightarrow> digit d \<noteq> CHR ''.''"
proof -
  assume "d < 10"
  then have "d \<in> {0, 1, 2, 3, 4, 5, 6, 7, 8, 9}" by auto
  then show ?thesis by (auto simp: digit_def)
qed

lemma decimal_no_point: "CHR ''.'' \<notin> set (decimal n)"
proof (induction n rule: decimal.induct)
  case (1 n)
  show ?case
  proof (cases "n < 10")
    case True
    then show ?thesis using digit_not_point[of n] by (subst decimal.simps) auto
  next
    case False
    have "n mod 10 < 10" by simp
    then have "digit (n mod 10) \<noteq> CHR ''.''" by (rule digit_not_point)
    then show ?thesis using False "1.IH" by (subst decimal.simps) auto
  qed
qed

lemma decimal_nonempty: "decimal n \<noteq> []"
  by (subst decimal.simps) simp

lemma decimalPlaces_toFixed: "decimalPlaces (toFixed x f) = f"
proof (cases "f = 0")
  case True
  then show ?thesis by (simp add: toFixed_def decimalPlaces_def decimal_no_point Let_def)
next
  case False
  define m where "m = decimal (nat \<lfloor>x * 10 ^ f + 1 / 2\<rfloor>)"
  define m' where "m' = replicate (f + 1 - length m) (CHR ''0'') @ m"
  have np: "CHR ''.'' \<notin> set m'" by (simp add: m'_def m_def decimal_no_point)
  have len: "f + 1 \<le> length m'" by (simp add: m'_def)
  have tf: "toFixed x f = take (length m' - f) m' @ ''.'' @ drop (length m' - f) m'"
    using False by (simp add: toFixed_def Let_def m_def m'_def)
  have nd: "CHR ''.'' \<notin> set (drop (length m' - f) m')"
    using np by (meson in_set_dropD)
  then have nd': "\<forall>c \<in> set (rev (drop (length m' - f) m')). c \<noteq> CHR ''.''"
    by auto
  have "rev (toFixed x f) =
      rev (drop (length m' - f) m') @ CHR ''.'' # rev (take (length m' - f) m')"
    by (simp add: tf)
  then have "takeWhile (\<lambda>c. c \<noteq> CHR ''.'') (rev (toFixed x f)) =
      takeWhile (\<lambda>c. c \<noteq> CHR ''.'') (rev (drop (length m' - f) m'))"
    by (simp only: takeWhile_tail[of "\<lambda>c. c \<noteq> CHR ''.''" "CHR ''.''", simplified])
  also have "\<dots> = rev (drop (length m' - f) m')"
    using nd' by (simp only: takeWhile_eq_all_conv)
  finally have "takeWhile (\<lambda>c. c \<noteq> CHR ''.'') (rev (toFixed x f)) =
      rev (drop (length m' - f) m')" .
  moreover have "length (drop (length m' - f) m') = f" using len by simp
  ultimately show ?thesis by (simp add: decimalPlaces_def tf)
qed

text \<open>
  C9. \<open>formatBytes\<close> of an absent byte count is \<open>"-"\<close>. For a byte count \<open>b\<close>, let \<open>k\<close> be the
  number of divisions by 1024 made while the value is at least 1024 and fewer than three
  have been made, and \<open>v = b / 1024^k\<close>. The result is \<open>v\<close> rendered by \<open>toFixed\<close>, with no
  decimal place when \<open>v \<ge> 10\<close> or \<open>k = 0\<close> and with one otherwise, then a space and the unit
  number \<open>k\<close> of B, KB, MB, GB; the rendered number has that many decimal places.
\<close>

theorem formatBytes_contract:
  "formatBytes None = ''-'' \<and>
   formatBytes (Some b) =
     toFixed (of_nat b / 1024 ^ divisions b)
       (if of_nat b / 1024 ^ divisions b \<ge> (10 :: rat) \<or> divisions b = 0 then 0 else 1)
     @ '' '' @ [''B'', ''KB'', ''MB'', ''GB''] ! divisions b \<and>
   decimalPlaces (toFixed (of_nat b / 1024 ^ divisions b)
       (if of_nat b / 1024 ^ divisions b \<ge> (10 :: rat) \<or> divisions b = 0 then 0 else 1)) =
     (if of_nat b / 1024 ^ divisions b \<ge> (10 :: rat) \<or> divisions b = 0 then 0 else 1)"
  by (simp add: formatBytes_loop_closed units_def decimalPlaces_toFixed)


lemma decimal_examples:
  "decimal 0 = ''0''" "decimal 10 = ''10''" "decimal 15 = ''15''" "decimal 100 = ''100''"
  "decimal 1023 = ''1023''"
  by (simp_all add: decimal.simps digit_def)

theorem formatBytes_contract_witness:
  "formatBytes None = ''-'' \<and>
   formatBytes (Some 0) = ''0 B'' \<and>
   formatBytes (Some 1023) = ''1023 B'' \<and>
   formatBytes (Some 1536) = ''1.5 KB'' \<and>
   formatBytes (Some 10189) = ''10.0 KB'' \<and>
   formatBytes (Some 10240) = ''10 KB'' \<and>
   formatBytes (Some 1073741824) = ''1.0 GB''"
proof -
  have d: "divisions 0 = 0" "divisions 1023 = 0" "divisions 1536 = 1" "divisions 10189 = 1"
    "divisions 10240 = 1" "divisions 1073741824 = 3"
    by (simp_all add: divisions_def)
  have t: "toFixed 0 0 = ''0''" "toFixed 1023 0 = ''1023''" "toFixed (1536 / 1024) 1 = ''1.5''"
    "toFixed (10189 / 1024) 1 = ''10.0''" "toFixed (10240 / 1024) 0 = ''10''"
    "toFixed (1073741824 / 1024 ^ 3) 1 = ''1.0''"
    by code_simp+
  show ?thesis
    using formatBytes_contract[of 0] formatBytes_contract[of 1023] formatBytes_contract[of 1536]
      formatBytes_contract[of 10189] formatBytes_contract[of 10240]
      formatBytes_contract[of 1073741824] t
    by (simp add: d)
qed


end
